theory Spec2Isabelle
  imports Complex_Main
begin

section \<open>Floating-point values, masked cells and grids\<close>

text \<open>
  The arrival-time raster is a numpy (masked) array of floats. Only comparisons, selection
  and maxima are applied to the values, all of which are exact on floats, so a finite float
  is modelled by the real number it denotes; NaN and the two infinities are separate values.
\<close>

datatype fval = NaN | PInf | NInf | Fin real

fun isfinite :: "fval \<Rightarrow> bool" where
  "isfinite (Fin x) = True"
| "isfinite v = False"

text \<open>IEEE comparison \<open>a <= b\<close>: false as soon as one side is NaN.\<close>

fun fle :: "fval \<Rightarrow> fval \<Rightarrow> bool" where
  "fle NaN b = False"
| "fle a NaN = False"
| "fle NInf b = True"
| "fle a PInf = True"
| "fle (Fin x) (Fin y) = (x \<le> y)"
| "fle a b = False"

definition flt :: "fval \<Rightarrow> fval \<Rightarrow> bool" where
  "flt a b = (fle a b \<and> \<not> fle b a)"

definition fmax :: "fval \<Rightarrow> fval \<Rightarrow> fval" where
  "fmax a b = (if fle a b then b else a)"

text \<open>
  A cell of \<open>np.ma.asarray(toa_field)\<close>: the stored value and the mask bit. A plain
  ndarray has every mask bit False.
\<close>

datatype cell = Cell (data: fval) (mask: bool)

type_synonym grid = "cell list list"

definition shape :: "'a list list \<Rightarrow> nat \<times> nat" where
  "shape g = (length g, (case g of [] \<Rightarrow> 0 | r # rs \<Rightarrow> length r))"

datatype error =
    GridMismatch "nat \<times> nat" "nat \<times> nat"
  | ZeroSizeReduction
  | FileNotFound
  | DateParseError
  | AmbiguousTime
  | NonExistentTime
  | KeyError
  | ValueError
  | RasterioIOError

text \<open>\<open>valid = np.isfinite(arr) & ~arr.mask\<close>\<close>

definition valid :: "cell \<Rightarrow> bool" where
  "valid c = (isfinite (data c) \<and> \<not> mask c)"

text \<open>Boolean-mask indexing \<open>a[m]\<close> followed by \<open>ravel()\<close>: row-major selection.\<close>

definition select :: "'a list list \<Rightarrow> bool list list \<Rightarrow> 'a list" where
  "select a m = concat (map (\<lambda>(r, mr). map fst (filter snd (zip r mr))) (zip a m))"

text \<open>
  \<open>np.nanmax\<close>: NaNs are ignored; an all-NaN input gives NaN; an empty input raises.
\<close>

definition nanmax :: "fval list \<Rightarrow> error + fval" where
  "nanmax xs =
     (if xs = [] then Inl ZeroSizeReduction
      else (case filter (\<lambda>v. v \<noteq> NaN) xs of
              [] \<Rightarrow> Inr NaN
            | y # ys \<Rightarrow> Inr (fold fmax ys y)))"

section \<open>The simulated burn mask of the skill scorer\<close>

text \<open>
  Lines 496--505 of \<open>calc_cohen_kappa_for_case\<close>:
  \<^verbatim>\<open>
  burnt = np.zeros(arr.shape, dtype=np.uint8)
  sim_time = np.nan
  if time_sec > 0:
      mask = valid & (arr <= time_sec) & (arr > 0.0)
      if mask.any():
          burnt[mask] = 1
          sim_time = float(np.nanmax(np.asarray(arr)[mask]))
  \<close>
\<close>

definition burn_mask :: "grid \<Rightarrow> real \<Rightarrow> bool list list" where
  "burn_mask arr time_sec =
     map (map (\<lambda>c. valid c \<and> fle (data c) (Fin time_sec) \<and> flt (Fin 0) (data c))) arr"

definition any_true :: "bool list list \<Rightarrow> bool" where
  "any_true m = list_ex (list_ex (\<lambda>b. b)) m"

definition simulated_mask :: "grid \<Rightarrow> real \<Rightarrow> error + (nat list list \<times> fval)" where
  "simulated_mask arr time_sec =
     (let zeros = map (map (\<lambda>c. 0::nat)) arr in
      if time_sec > 0 then
        (let m = burn_mask arr time_sec in
         if any_true m then
           (case nanmax (select (map (map data) arr) m) of
              Inl e \<Rightarrow> Inl e
            | Inr v \<Rightarrow> Inr (map (map (\<lambda>b. if b then 1 else 0)) m, v))
         else Inr (zeros, NaN))
      else Inr (zeros, NaN))"

text \<open>
  The specification's wording of the same block: a cell is burned when it is valid and its
  arrival time is finite, strictly positive and at most the elapsed seconds.
\<close>

definition burned_by :: "real \<Rightarrow> cell \<Rightarrow> bool" where
  "burned_by t c = (\<not> mask c \<and> (case data c of Fin x \<Rightarrow> 0 < x \<and> x \<le> t | _ \<Rightarrow> False))"

definition burned_times :: "grid \<Rightarrow> real \<Rightarrow> real list" where
  "burned_times arr t =
     concat (map (\<lambda>r. concat (map (\<lambda>c. case data c of Fin x \<Rightarrow> (if burned_by t c then [x] else []) | _ \<Rightarrow> []) r)) arr)"

definition realized_cutoff :: "grid \<Rightarrow> real \<Rightarrow> fval" where
  "realized_cutoff arr t =
     (if burned_times arr t = [] then NaN else Fin (Max (set (burned_times arr t))))"

definition nd :: cell where
  "nd = Cell (Fin (-9999)) True"

definition scenario_grid :: grid where
  "scenario_grid =
     [[Cell (Fin 1) False, Cell (Fin 2) False, nd, nd],
      [Cell (Fin 3) False, Cell (Fin 4) False, nd, nd],
      [nd, nd, nd, nd],
      [nd, nd, nd, nd]]"

section \<open>Civil time and instants\<close>

text \<open>
  A tz-naive pandas \<open>Timestamp\<close> is modelled by its civil fields, a tz-aware one by its
  instant: the number of seconds since 1970-01-01T00:00:00Z. The day count follows
  Python's proleptic Gregorian ordinal (\<open>date.toordinal\<close>).
\<close>

datatype naive =
  Naive (year: int) (month: int) (day: int) (hour: int) (minute: int) (second: int)

type_synonym instant = int

definition is_leap :: "int \<Rightarrow> bool" where
  "is_leap y = (y mod 4 = 0 \<and> (y mod 100 \<noteq> 0 \<or> y mod 400 = 0))"

definition days_in_month :: "int \<Rightarrow> int \<Rightarrow> int" where
  "days_in_month y m =
     (if m = 2 then (if is_leap y then 29 else 28)
      else if m = 4 \<or> m = 6 \<or> m = 9 \<or> m = 11 then 30 else 31)"

definition days_before_year :: "int \<Rightarrow> int" where
  "days_before_year y = (y - 1) * 365 + (y - 1) div 4 - (y - 1) div 100 + (y - 1) div 400"

definition days_before_month :: "int \<Rightarrow> int \<Rightarrow> int" where
  "days_before_month y m = sum_list (map (days_in_month y) [1..m - 1])"

definition ymd2ord :: "int \<Rightarrow> int \<Rightarrow> int \<Rightarrow> int" where
  "ymd2ord y m d = days_before_year y + days_before_month y m + d"

text \<open>Monday is 0, Sunday is 6.\<close>

definition weekday :: "int \<Rightarrow> int \<Rightarrow> int \<Rightarrow> int" where
  "weekday y m d = (ymd2ord y m d + 6) mod 7"

definition valid_naive :: "naive \<Rightarrow> bool" where
  "valid_naive t =
     (1 \<le> month t \<and> month t \<le> 12 \<and> 1 \<le> day t \<and> day t \<le> days_in_month (year t) (month t)
      \<and> 0 \<le> hour t \<and> hour t < 24 \<and> 0 \<le> minute t \<and> minute t < 60
      \<and> 0 \<le> second t \<and> second t < 60)"

text \<open>The instant denoted by the civil fields when they are read in UTC.\<close>

definition naive_seconds :: "naive \<Rightarrow> instant" where
  "naive_seconds t =
     (ymd2ord (year t) (month t) (day t) - 719163) * 86400
       + hour t * 3600 + minute t * 60 + second t"

datatype zone = America_Los_Angeles | UTC

text \<open>
  \<open>ts.tz_localize(ZoneInfo(z))\<close>: the zone table gives the UTC offset (seconds east of
  Greenwich) of a local civil time, or the error pandas raises for a local time that the
  zone skips or repeats.
\<close>

type_synonym tzdb = "zone \<Rightarrow> naive \<Rightarrow> error + int"

definition tz_localize :: "tzdb \<Rightarrow> zone \<Rightarrow> naive \<Rightarrow> error + instant" where
  "tz_localize db z t =
     (case db z t of Inl e \<Rightarrow> Inl e | Inr off \<Rightarrow> Inr (naive_seconds t - off))"

text \<open>
  The tz database entry of America/Los\_Angeles under the rules in force since 2007:
  daylight time runs from 02:00 on the second Sunday of March to 02:00 on the first Sunday
  of November. The table is meant for years from 2007 on.
\<close>

definition nth_sunday :: "int \<Rightarrow> int \<Rightarrow> int \<Rightarrow> int" where
  "nth_sunday y m n = (let d0 = 1 + 7 * (n - 1) in d0 + (6 - weekday y m d0) mod 7)"

definition la_offset :: "naive \<Rightarrow> error + int" where
  "la_offset t =
     (let y = year t;
          s = naive_seconds t;
          dst_start = naive_seconds (Naive y 3 (nth_sunday y 3 2) 2 0 0);
          dst_end = naive_seconds (Naive y 11 (nth_sunday y 11 1) 2 0 0)
      in if dst_start \<le> s \<and> s < dst_start + 3600 then Inl NonExistentTime
         else if dst_end - 3600 \<le> s \<and> s < dst_end then Inl AmbiguousTime
         else if dst_start + 3600 \<le> s \<and> s < dst_end - 3600 then Inr (- 7 * 3600)
         else Inr (- 8 * 3600))"

definition zoneinfo :: tzdb where
  "zoneinfo z t = (case z of UTC \<Rightarrow> Inr 0 | America_Los_Angeles \<Rightarrow> la_offset t)"

section \<open>Start-time parsing\<close>

text \<open>
  A string is the list of its code points, all below 256. On these code points
  \<open>str.strip()\<close> and the pattern \<open>\s\<close> remove the controls 9--13 and 28--31, the
  space, the next-line control 133 and the no-break space 160; \<open>\w\<close> (and with it
  \<open>\b\<close>) takes the digits, the underscore and the letters and numerals of
  Latin-1 as word characters. Case-insensitive matching and \<open>upper()\<close> concern only
  the matched token, whose letters are ASCII.
\<close>

definition is_space :: "char \<Rightarrow> bool" where
  "is_space c =
     (let n = (of_char c :: nat)
      in (9 \<le> n \<and> n \<le> 13) \<or> (28 \<le> n \<and> n \<le> 32) \<or> n = 133 \<or> n = 160)"

definition is_word :: "char \<Rightarrow> bool" where
  "is_word c =
     (let n = (of_char c :: nat)
      in (48 \<le> n \<and> n \<le> 57) \<or> (65 \<le> n \<and> n \<le> 90) \<or> n = 95 \<or> (97 \<le> n \<and> n \<le> 122)
         \<or> n = 170 \<or> n = 178 \<or> n = 179 \<or> n = 181 \<or> n = 185 \<or> n = 186
         \<or> (188 \<le> n \<and> n \<le> 190) \<or> (192 \<le> n \<and> n \<le> 214)
         \<or> (216 \<le> n \<and> n \<le> 246) \<or> (248 \<le> n \<and> n \<le> 255))"

definition to_upper :: "char \<Rightarrow> char" where
  "to_upper c =
     (let n = (of_char c :: nat) in if 97 \<le> n \<and> n \<le> 122 then char_of (n - 32) else c)"

definition strip :: "string \<Rightarrow> string" where
  "strip s = rev (dropWhile is_space (rev (dropWhile is_space s)))"

definition comma_to_space :: "string \<Rightarrow> string" where
  "comma_to_space s = map (\<lambda>c. if c = CHR '','' then CHR '' '' else c) s"

definition tz_tokens :: "string list" where
  "tz_tokens = [''PST'', ''PDT'', ''UTC'', ''GMT'']"

text \<open>
  \<open>re.search(r"\b(PST|PDT|UTC|GMT)\s*$", s, flags=re.IGNORECASE)\<close>. A match that
  starts at a position needs a word boundary there (the token starts with a letter, so:
  start of string or a non-word character before it), one of the tokens in any letter
  case, and nothing but white space up to the end. The search returns the leftmost match:
  its start index and the matched token.
\<close>

definition tz_match_at :: "char option \<Rightarrow> string \<Rightarrow> bool" where
  "tz_match_at prev rest =
     ((case prev of None \<Rightarrow> True | Some p \<Rightarrow> \<not> is_word p)
      \<and> 3 \<le> length rest
      \<and> map to_upper (take 3 rest) \<in> set tz_tokens
      \<and> list_all is_space (drop 3 rest))"

fun tz_search :: "nat \<Rightarrow> char option \<Rightarrow> string \<Rightarrow> (nat \<times> string) option" where
  "tz_search i prev [] = None"
| "tz_search i prev (c # cs) =
     (if tz_match_at prev (c # cs) then Some (i, take 3 (c # cs))
      else tz_search (Suc i) (Some c) cs)"

definition tz_map :: "(string \<times> zone) list" where
  "tz_map = [(''PST'', America_Los_Angeles), (''PDT'', America_Los_Angeles),
             (''UTC'', UTC), (''GMT'', UTC)]"

text \<open>
  The start time is a string, a tz-naive timestamp or a tz-aware one. \<open>pd.to_datetime\<close>
  on the string is a parameter: it returns the naive timestamp it reads or raises.
\<close>

datatype start_time = StartStr string | StartNaive naive | StartAware instant

definition parse_start_to_utc ::
  "(string \<Rightarrow> error + naive) \<Rightarrow> tzdb \<Rightarrow> start_time \<Rightarrow> error + instant" where
  "parse_start_to_utc to_datetime db start =
     (case start of
        StartStr str \<Rightarrow>
          (let s = strip (comma_to_space str) in
           case tz_search 0 None s of
             Some (i, tok) \<Rightarrow>
               (case map_of tz_map (map to_upper tok) of
                  None \<Rightarrow> Inl KeyError
                | Some z \<Rightarrow>
                    (case to_datetime (strip (take i s)) of
                       Inl e \<Rightarrow> Inl e
                     | Inr ts \<Rightarrow> tz_localize db z ts))
           | None \<Rightarrow>
               (case to_datetime s of
                  Inl e \<Rightarrow> Inl e
                | Inr ts \<Rightarrow> tz_localize db UTC ts))
      | StartNaive ts \<Rightarrow> tz_localize db UTC ts
      | StartAware i \<Rightarrow> Inr i)"

text \<open>
  \<open>pd.to_datetime\<close> on the layouts \<open>YYYY-MM-DD\<close>, \<open>YYYY-MM-DD HH:MM\<close> and
  \<open>YYYY-MM-DD HH:MM:SS\<close> (date and time separated by white space). pandas reads
  further layouts, which this reader rejects; it is used below only on strings of these
  layouts and on a string that pandas rejects as well.
\<close>

definition digits_val :: "string \<Rightarrow> int option" where
  "digits_val s =
     (if s \<noteq> [] \<and> list_all (\<lambda>c. 48 \<le> (of_char c :: nat) \<and> (of_char c :: nat) \<le> 57) s
      then Some (foldl (\<lambda>a c. 10 * a + (int (of_char c) - 48)) 0 s)
      else None)"

fun split_on :: "(char \<Rightarrow> bool) \<Rightarrow> string \<Rightarrow> string \<Rightarrow> string list" where
  "split_on p acc [] = [rev acc]"
| "split_on p acc (c # cs) =
     (if p c then rev acc # split_on p [] cs else split_on p (c # acc) cs)"

definition fields :: "(char \<Rightarrow> bool) \<Rightarrow> string \<Rightarrow> string list" where
  "fields p s = split_on p [] s"

definition read_date :: "string \<Rightarrow> (int \<times> int \<times> int) option" where
  "read_date s =
     (case fields (\<lambda>c. c = CHR ''-'') s of
        [y, m, d] \<Rightarrow>
          (if length y = 4 \<and> length m = 2 \<and> length d = 2 then
             (case (digits_val y, digits_val m, digits_val d) of
                (Some yv, Some mv, Some dv) \<Rightarrow> Some (yv, mv, dv)
              | _ \<Rightarrow> None)
           else None)
      | _ \<Rightarrow> None)"

definition read_time :: "string \<Rightarrow> (int \<times> int \<times> int) option" where
  "read_time s =
     (case fields (\<lambda>c. c = CHR '':'') s of
        [h, m] \<Rightarrow>
          (if length h = 2 \<and> length m = 2 then
             (case (digits_val h, digits_val m) of
                (Some hv, Some mv) \<Rightarrow> Some (hv, mv, 0)
              | _ \<Rightarrow> None)
           else None)
      | [h, m, sec] \<Rightarrow>
          (if length h = 2 \<and> length m = 2 \<and> length sec = 2 then
             (case (digits_val h, digits_val m, digits_val sec) of
                (Some hv, Some mv, Some sv) \<Rightarrow> Some (hv, mv, sv)
              | _ \<Rightarrow> None)
           else None)
      | _ \<Rightarrow> None)"

definition checked :: "naive \<Rightarrow> error + naive" where
  "checked t = (if valid_naive t \<and> 1 \<le> year t then Inr t else Inl DateParseError)"

definition iso_to_datetime :: "string \<Rightarrow> error + naive" where
  "iso_to_datetime s =
     (case filter (\<lambda>w. w \<noteq> []) (fields is_space s) of
        [d] \<Rightarrow>
          (case read_date d of
             Some (y, m, dd) \<Rightarrow> checked (Naive y m dd 0 0 0)
           | None \<Rightarrow> Inl DateParseError)
      | [d, t] \<Rightarrow>
          (case (read_date d, read_time t) of
             (Some (y, m, dd), Some (h, mi, sec)) \<Rightarrow> checked (Naive y m dd h mi sec)
           | _ \<Rightarrow> Inl DateParseError)
      | _ \<Rightarrow> Inl DateParseError)"

text \<open>
  The specification's wording of the zone resolution: the two Pacific tokens resolve to
  the Los Angeles zone, the other two to UTC.
\<close>

definition resolved_zone :: "string \<Rightarrow> zone" where
  "resolved_zone tok =
     (if map to_upper tok = ''PST'' \<or> map to_upper tok = ''PDT'' then America_Los_Angeles else UTC)"

text \<open>
  A recognized trailing zone token: the last three characters spell one of the tokens in
  any letter case, and they start the string or follow a character that is not a word
  character. The result is the text before the token and the token.
\<close>

definition zone_suffix :: "string \<Rightarrow> (string \<times> string) option" where
  "zone_suffix s =
     (let n = length s in
      if 3 \<le> n \<and> map to_upper (drop (n - 3) s) \<in> set tz_tokens
           \<and> (n = 3 \<or> \<not> is_word (s ! (n - 4)))
      then Some (take (n - 3) s, drop (n - 3) s)
      else None)"

section \<open>Detections and cohorts\<close>

text \<open>
  A detection record carries its geometry (missing, empty or a point), the acquisition
  date as a timestamp and the acquisition time as the \<open>HHMM\<close> string.
\<close>

datatype geometry = GeomNone | GeomEmpty | GeomPoint real real

record row =
  ACQ_DATE :: naive
  ACQ_TIME :: string
  geometry :: geometry

record obs_row = row +
  observation_time :: naive
  half_day :: int

definition has_geometry :: "'a row_scheme \<Rightarrow> bool" where
  "has_geometry r = (geometry r \<noteq> GeomNone \<and> geometry r \<noteq> GeomEmpty)"

subsection \<open>The detection loader\<close>

text \<open>
  \<open>load_viirs_points\<close>. The directory is given by the sorted list of shapefiles found
  under it; the two readers are parameters (the first one skips invalid records, the
  second one is the fallback when the first raises); so is the reprojection to WGS84.
\<close>

fun read_all ::
  "('f \<Rightarrow> error + row list) \<Rightarrow> ('f \<Rightarrow> error + row list) \<Rightarrow> 'f list \<Rightarrow> error + row list list" where
  "read_all read_pyogrio read_fiona [] = Inr []"
| "read_all read_pyogrio read_fiona (shp # shps) =
     (case (case read_pyogrio shp of Inl e \<Rightarrow> read_fiona shp | Inr g \<Rightarrow> Inr g) of
        Inl e \<Rightarrow> Inl e
      | Inr g \<Rightarrow>
          (case read_all read_pyogrio read_fiona shps of
             Inl e \<Rightarrow> Inl e
           | Inr gdfs \<Rightarrow> Inr (if g \<noteq> [] then g # gdfs else gdfs)))"

definition load_viirs_points ::
  "('f \<Rightarrow> error + row list) \<Rightarrow> ('f \<Rightarrow> error + row list) \<Rightarrow> (row list \<Rightarrow> row list)
     \<Rightarrow> 'f list \<Rightarrow> error + row list" where
  "load_viirs_points read_pyogrio read_fiona to_wgs84 shps =
     (if shps = [] then Inl FileNotFound
      else
        (case read_all read_pyogrio read_fiona shps of
           Inl e \<Rightarrow> Inl e
         | Inr gdfs \<Rightarrow>
             (let gdf = (if gdfs \<noteq> [] then concat gdfs else []) in
              if gdf \<noteq> [] then Inr (filter has_geometry (to_wgs84 gdf)) else Inr gdf)))"

subsection \<open>Observation time and half-day cohort\<close>

text \<open>
  \<open>add_viirs_obstime\<close>. \<open>combine\<close> reads the first two characters of the time as
  the hour and the remaining ones as the minute, with \<open>int()\<close>, and adds them to the
  acquisition date; the sum carries into the following or the preceding days.

  \<open>int()\<close> on a string: surrounding white space is dropped, one sign is allowed, and
  the digits may be separated by single underscores. (The limit that recent interpreters
  put on the number of digits is left out.)
\<close>

definition is_digit :: "char \<Rightarrow> bool" where
  "is_digit c = (48 \<le> (of_char c :: nat) \<and> (of_char c :: nat) \<le> 57)"

fun no_double_underscore :: "string \<Rightarrow> bool" where
  "no_double_underscore (a # b # cs) =
     (\<not> (a = CHR ''_'' \<and> b = CHR ''_'') \<and> no_double_underscore (b # cs))"
| "no_double_underscore cs = True"

definition py_int :: "string \<Rightarrow> int option" where
  "py_int s =
     (let t = strip s;
          neg = (case t of [] \<Rightarrow> False | c # cs \<Rightarrow> c = CHR ''-'');
          body = (case t of [] \<Rightarrow> [] | c # cs \<Rightarrow> if c = CHR ''-'' \<or> c = CHR ''+'' then cs else t)
      in if body \<noteq> [] \<and> is_digit (hd body) \<and> is_digit (last body)
            \<and> list_all (\<lambda>c. is_digit c \<or> c = CHR ''_'') body \<and> no_double_underscore body
         then (case digits_val (filter is_digit body) of
                 None \<Rightarrow> None
               | Some v \<Rightarrow> Some (if neg then - v else v))
         else None)"

definition next_day :: "int \<times> int \<times> int \<Rightarrow> int \<times> int \<times> int" where
  "next_day ymd =
     (case ymd of (y, m, d) \<Rightarrow>
        if d < days_in_month y m then (y, m, d + 1)
        else if m < 12 then (y, m + 1, 1)
        else (y + 1, 1, 1))"

definition prev_day :: "int \<times> int \<times> int \<Rightarrow> int \<times> int \<times> int" where
  "prev_day ymd =
     (case ymd of (y, m, d) \<Rightarrow>
        if 1 < d then (y, m, d - 1)
        else if 1 < m then (y, m - 1, days_in_month y (m - 1))
        else (y - 1, 12, 31))"

definition add_hours_minutes :: "naive \<Rightarrow> int \<Rightarrow> int \<Rightarrow> naive" where
  "add_hours_minutes t hh mm =
     (let total = hour t * 60 + minute t + hh * 60 + mm;
          days = total div 1440;
          ymd = (if 0 \<le> days then (next_day ^^ nat days) (year t, month t, day t)
                 else (prev_day ^^ nat (- days)) (year t, month t, day t))
      in case ymd of (y, m, d) \<Rightarrow>
           Naive y m d ((total mod 1440) div 60) ((total mod 1440) mod 60) (second t))"

definition combine :: "row \<Rightarrow> error + naive" where
  "combine r =
     (case py_int (take 2 (ACQ_TIME r)) of
        None \<Rightarrow> Inl ValueError
      | Some hh \<Rightarrow>
          (case py_int (drop 2 (ACQ_TIME r)) of
             None \<Rightarrow> Inl ValueError
           | Some mm \<Rightarrow> Inr (add_hours_minutes (ACQ_DATE r) hh mm)))"

definition half_day_of :: "naive \<Rightarrow> int" where
  "half_day_of t = day t * 2 + hour t div 12"

fun combine_all :: "row list \<Rightarrow> error + (row \<times> naive) list" where
  "combine_all [] = Inr []"
| "combine_all (r # rs) =
     (case combine r of
        Inl e \<Rightarrow> Inl e
      | Inr t \<Rightarrow> (case combine_all rs of Inl e \<Rightarrow> Inl e | Inr ts \<Rightarrow> Inr ((r, t) # ts)))"

definition with_obs :: "row \<times> naive \<Rightarrow> obs_row" where
  "with_obs p = row.extend (fst p) \<lparr>observation_time = snd p, half_day = half_day_of (snd p)\<rparr>"

text \<open>
  The frame is sorted by observation time with pandas' default sort, which is not
  stable: rows with equal times may come out in any order. The sort is therefore a
  parameter; every function that returns its input rearranged in ascending order of the
  time is admissible, the stable sort being one. Assigning the result of \<open>apply\<close> on a
  frame without rows raises.
\<close>

type_synonym sort_values = "(row \<times> naive) list \<Rightarrow> (row \<times> naive) list"

definition add_viirs_obstime :: "sort_values \<Rightarrow> row list \<Rightarrow> error + obs_row list" where
  "add_viirs_obstime sort_by_time gdf =
     (if gdf = [] then Inl ValueError
      else
        (case combine_all gdf of
           Inl e \<Rightarrow> Inl e
         | Inr ps \<Rightarrow> Inr (map with_obs (sort_by_time ps))))"

definition admissible_sort :: "sort_values \<Rightarrow> bool" where
  "admissible_sort sv =
     (\<forall>ps. set (sv ps) = set ps \<and> length (sv ps) = length ps
           \<and> sorted (map (\<lambda>p. naive_seconds (snd p)) (sv ps)))"

definition stable_sort :: sort_values where
  "stable_sort ps = sort_key (\<lambda>p. naive_seconds (snd p)) ps"

text \<open>
  The half-day window an observation falls in, counted in half days since the epoch, is
  the chronological reference for the cohort index.
\<close>

definition half_day_window :: "naive \<Rightarrow> int" where
  "half_day_window t = naive_seconds t div 43200"

subsection \<open>Sample detection sets\<close>

definition cohort_table :: "row list \<Rightarrow> (int \<times> int) list" where
  "cohort_table gdf =
     (case add_viirs_obstime stable_sort gdf of
        Inl e \<Rightarrow> []
      | Inr out \<Rightarrow> map (\<lambda>r. (half_day r, half_day_window (observation_time r))) out)"

definition detection_at :: "naive \<Rightarrow> string \<Rightarrow> row" where
  "detection_at d hm = \<lparr>ACQ_DATE = d, ACQ_TIME = hm, geometry = GeomPoint (-122.7) 38.5\<rparr>"

definition cross_month_detections :: "row list" where
  "cross_month_detections =
     [\<lparr>ACQ_DATE = Naive 2017 11 1 0 0 0, ACQ_TIME = ''0800'', geometry = GeomPoint 3 3\<rparr>,
      \<lparr>ACQ_DATE = Naive 2017 10 31 0 0 0, ACQ_TIME = ''0800'', geometry = GeomPoint 2 2\<rparr>,
      \<lparr>ACQ_DATE = Naive 2017 10 1 0 0 0, ACQ_TIME = ''0800'', geometry = GeomPoint 1 1\<rparr>]"

definition one_month_detections :: "row list" where
  "one_month_detections =
     [detection_at (Naive 2017 10 10 0 0 0) ''1324'',
      detection_at (Naive 2017 10 9 0 0 0) ''0930'']"

definition geometryless_file :: "row list" where
  "geometryless_file =
     [\<lparr>ACQ_DATE = Naive 2017 10 9 0 0 0, ACQ_TIME = ''0930'', geometry = GeomNone\<rparr>,
      \<lparr>ACQ_DATE = Naive 2017 10 9 0 0 0, ACQ_TIME = ''0936'', geometry = GeomEmpty\<rparr>]"

section \<open>Cumulative perimeter reconstruction\<close>

text \<open>
  \<open>viirs_concave_hulls_by_halfday\<close>. The geometry library (shapely) is a parameter:
  the convex hull of a multipoint, the concave hull (which may raise: \<open>None\<close>), the
  geometry type of a result, its emptiness and the buffer operation.
\<close>

datatype geom_type =
  Point | LineString | LinearRing | Polygon | MultiPoint | MultiLineString | MultiPolygon
  | GeometryCollection

record 'g geom_lib =
  convex_hull :: "geometry list \<Rightarrow> 'g"
  concave_hull :: "geometry list \<Rightarrow> real \<Rightarrow> bool \<Rightarrow> 'g option"
  geom_type_of :: "'g \<Rightarrow> geom_type"
  is_empty :: "'g \<Rightarrow> bool"
  buffer :: "'g \<Rightarrow> real \<Rightarrow> 'g"

text \<open>The body of the loop once the cohort's points have been accumulated.\<close>

definition cohort_hull :: "'g geom_lib \<Rightarrow> geometry list \<Rightarrow> real \<Rightarrow> bool \<Rightarrow> real \<Rightarrow> 'g" where
  "cohort_hull lib cum_points ratio allow_holes tiny_buffer_deg =
     (let hull0 =
            (if length cum_points < 3 then convex_hull lib cum_points
             else (case concave_hull lib cum_points ratio allow_holes of
                     None \<Rightarrow> convex_hull lib cum_points
                   | Some h \<Rightarrow> h))
      in if geom_type_of lib hull0 = Point \<or> geom_type_of lib hull0 = LineString
         then buffer lib hull0 tiny_buffer_deg
         else hull0)"


definition later :: "naive \<Rightarrow> naive \<Rightarrow> naive" where
  "later a b = (if naive_seconds b < naive_seconds a then a else b)"

definition t_rep :: "obs_row list \<Rightarrow> naive option" where
  "t_rep rows =
     (case rows of [] \<Rightarrow> None
      | r # rs \<Rightarrow> Some (fold later (map observation_time rs) (observation_time r)))"

fun dict_set :: "'k \<Rightarrow> 'v \<Rightarrow> ('k \<times> 'v) list \<Rightarrow> ('k \<times> 'v) list" where
  "dict_set k v [] = [(k, v)]"
| "dict_set k v ((k', v') # kvs) =
     (if k' = k then (k, v) # kvs else (k', v') # dict_set k v kvs)"

fun hull_loop ::
  "'g geom_lib \<Rightarrow> real \<Rightarrow> bool \<Rightarrow> real \<Rightarrow> obs_row list \<Rightarrow> int list \<Rightarrow> geometry list
     \<Rightarrow> (naive \<times> 'g) list \<Rightarrow> (naive \<times> 'g) list" where
  "hull_loop lib ratio allow_holes eps g [] cum_points hulls = hulls"
| "hull_loop lib ratio allow_holes eps g (k # ks) cum_points hulls =
     (let cohort = filter (\<lambda>r. half_day r = k) g;
          cum_points' = cum_points @ map geometry cohort;
          hull_k = cohort_hull lib cum_points' ratio allow_holes eps
      in hull_loop lib ratio allow_holes eps g ks cum_points'
           (case t_rep cohort of None \<Rightarrow> hulls | Some t \<Rightarrow> dict_set t hull_k hulls))"

definition viirs_concave_hulls_by_halfday ::
  "'g geom_lib \<Rightarrow> obs_row list \<Rightarrow> real \<Rightarrow> bool \<Rightarrow> real \<Rightarrow> (naive \<times> 'g) list" where
  "viirs_concave_hulls_by_halfday lib gdf ratio allow_holes tiny_buffer_deg =
     (let g0 = filter has_geometry gdf;
          g = sort_key half_day (sort_key (\<lambda>r. naive_seconds (observation_time r)) g0)
      in hull_loop lib ratio allow_holes tiny_buffer_deg g (sort (remdups (map half_day g))) [] [])"

















definition observed :: "naive \<Rightarrow> string \<Rightarrow> real \<Rightarrow> real \<Rightarrow> obs_row" where
  "observed t hm x y =
     \<lparr>ACQ_DATE = Naive (year t) (month t) (day t) 0 0 0, ACQ_TIME = hm,
      geometry = GeomPoint x y, observation_time = t, half_day = half_day_of t\<rparr>"


text \<open>
  The hulls built from the detections of 1 October, 31 October and 1 November.
\<close>

definition cross_month_hulls :: "'g geom_lib \<Rightarrow> real \<Rightarrow> bool \<Rightarrow> real \<Rightarrow> (naive \<times> 'g) list" where
  "cross_month_hulls lib ratio allow_holes eps =
     (case add_viirs_obstime stable_sort cross_month_detections of
        Inl e \<Rightarrow> []
      | Inr out \<Rightarrow> viirs_concave_hulls_by_halfday lib out ratio allow_holes eps)"

section \<open>Burn-area history\<close>

text \<open>
  \<open>burn_area_history_from_toa\<close>. The two early returns give a pair and a triple of
  empty lists; the exact mode returns times, cumulative counts and areas; the sampled
  mode returns thresholds and areas.
\<close>

datatype curve = Curve2 "real list" "real list" | Curve3 "real list" "nat list" "real list"

definition finite_values :: "grid \<Rightarrow> real list" where
  "finite_values a =
     List.map_filter (\<lambda>c. case data c of Fin x \<Rightarrow> (if valid c then Some x else None) | _ \<Rightarrow> None)
       (concat a)"

fun cumsum_from :: "nat \<Rightarrow> nat list \<Rightarrow> nat list" where
  "cumsum_from a [] = []"
| "cumsum_from a (x # xs) = (a + x) # cumsum_from (a + x) xs"

definition cumsum :: "nat list \<Rightarrow> nat list" where
  "cumsum xs = cumsum_from 0 xs"

definition linspace :: "real \<Rightarrow> real \<Rightarrow> nat \<Rightarrow> real list" where
  "linspace start stop num =
     (if num = 0 then []
      else if num = 1 then [start]
      else map (\<lambda>i. start + real i * ((stop - start) / real (num - 1))) [0..<num])"

definition burn_area_history_from_toa ::
  "grid \<Rightarrow> real option \<Rightarrow> int option \<Rightarrow> error + curve" where
  "burn_area_history_from_toa toa_array pixel_area_m2 n_steps =
     (let vals0 = finite_values toa_array in
      if vals0 = [] then Inr (Curve2 [] [])
      else
        (let vals = filter (\<lambda>v. 0 < v) (sort vals0) in
         if vals = [] then Inr (Curve3 [] [] [])
         else
           (let scale = (case pixel_area_m2 of None \<Rightarrow> 1 | Some p \<Rightarrow> if p = 0 then 1 else p) in
            case n_steps of
              None \<Rightarrow>
                (let unique_times = sort (remdups vals);
                     counts = map (count_list vals) unique_times;
                     cum_counts = cumsum counts;
                     areas = map (\<lambda>c. real c * scale) cum_counts
                 in Inr (Curve3 unique_times cum_counts areas))
            | Some n \<Rightarrow>
                (if n < 0 then Inl ValueError
                 else
                   (let thresholds = linspace (hd vals) (last vals) (nat n);
                        idx = map (\<lambda>th. length (filter (\<lambda>v. v \<le> th) vals)) thresholds;
                        areas = map (\<lambda>i. real i * scale) idx
                    in Inr (Curve2 thresholds areas))))))"

fun times_of :: "curve \<Rightarrow> real list" where
  "times_of (Curve2 ts ar) = ts"
| "times_of (Curve3 ts cs ar) = ts"

fun counts_of :: "curve \<Rightarrow> nat list" where
  "counts_of (Curve2 ts ar) = []"
| "counts_of (Curve3 ts cs ar) = cs"

fun areas_of :: "curve \<Rightarrow> real list" where
  "areas_of (Curve2 ts ar) = ar"
| "areas_of (Curve3 ts cs ar) = ar"

text \<open>The number of cells with a finite, strictly positive arrival time.\<close>

definition positive_cells :: "grid \<Rightarrow> nat" where
  "positive_cells a =
     length (filter (\<lambda>c. \<not> mask c \<and> (case data c of Fin x \<Rightarrow> 0 < x | _ \<Rightarrow> False)) (concat a))"

section \<open>Cohen's kappa and the grid-aligned skill scorer\<close>

text \<open>
  \<open>sklearn.metrics.cohen_kappa_score(y1, y2)\<close> without weights: the labels are the
  sorted distinct values of both vectors, the confusion matrix counts the pairs, the
  expected matrix is the outer product of its column sums and row sums over the total,
  and the score is one minus the ratio of the off-diagonal sums. The division is the
  floating-point one: \<open>0/0\<close> is NaN and \<open>x/0\<close> an infinity.
\<close>

definition unique_labels :: "nat list \<Rightarrow> nat list \<Rightarrow> nat list" where
  "unique_labels y1 y2 = sort (remdups (y1 @ y2))"

definition confusion :: "nat list \<Rightarrow> nat list \<Rightarrow> nat \<Rightarrow> nat \<Rightarrow> nat" where
  "confusion y1 y2 i j = length (filter (\<lambda>p. p = (i, j)) (zip y1 y2))"

definition fdiv :: "real \<Rightarrow> real \<Rightarrow> fval" where
  "fdiv a b =
     (if b = 0 then (if a = 0 then NaN else if 0 < a then PInf else NInf) else Fin (a / b))"

fun one_minus :: "fval \<Rightarrow> fval" where
  "one_minus (Fin x) = Fin (1 - x)"
| "one_minus PInf = NInf"
| "one_minus NInf = PInf"
| "one_minus NaN = NaN"

definition cohen_kappa_score :: "nat list \<Rightarrow> nat list \<Rightarrow> fval" where
  "cohen_kappa_score y1 y2 =
     (let labels = unique_labels y1 y2;
          sum0 = (\<lambda>j. sum_list (map (\<lambda>i. confusion y1 y2 i j) labels));
          sum1 = (\<lambda>i. sum_list (map (\<lambda>j. confusion y1 y2 i j) labels));
          n = sum_list (map sum0 labels);
          off_confusion =
            sum_list (map (\<lambda>i. sum_list (map (\<lambda>j. if i = j then 0 else real (confusion y1 y2 i j)) labels)) labels);
          off_expected =
            sum_list (map (\<lambda>i. sum_list (map (\<lambda>j. if i = j then 0 else real (sum0 i) * real (sum1 j) / real n) labels)) labels)
      in one_minus (fdiv off_confusion off_expected))"

text \<open>\<open>y.max()\<close> and \<open>y.min()\<close> raise on an empty array.\<close>

definition amax :: "nat list \<Rightarrow> error + nat" where
  "amax ys = (case ys of [] \<Rightarrow> Inl ZeroSizeReduction | y # rest \<Rightarrow> Inr (fold max rest y))"

definition amin :: "nat list \<Rightarrow> error + nat" where
  "amin ys = (case ys of [] \<Rightarrow> Inl ZeroSizeReduction | y # rest \<Rightarrow> Inr (fold min rest y))"

definition one_class :: "nat list \<Rightarrow> error + bool" where
  "one_class ys =
     (case amax ys of
        Inl e \<Rightarrow> Inl e
      | Inr hi \<Rightarrow> (case amin ys of Inl e \<Rightarrow> Inl e | Inr lo \<Rightarrow> Inr (hi = lo)))"

text \<open>
  Lines 511--517: the guard on single-class vectors (with Python's short-circuit
  \<open>and\<close>), the score, and the replacement of a non-finite score by NaN.
\<close>

definition finite_or_nan :: "fval \<Rightarrow> fval" where
  "finite_or_nan k = (if isfinite k then k else NaN)"

definition kappa_record :: "nat list \<Rightarrow> nat list \<Rightarrow> error + fval" where
  "kappa_record y_sim y_obs =
     (case one_class y_sim of
        Inl e \<Rightarrow> Inl e
      | Inr False \<Rightarrow> Inr (finite_or_nan (cohen_kappa_score y_obs y_sim))
      | Inr True \<Rightarrow>
          (case one_class y_obs of
             Inl e \<Rightarrow> Inl e
           | Inr True \<Rightarrow> Inr NaN
           | Inr False \<Rightarrow> Inr (finite_or_nan (cohen_kappa_score y_obs y_sim))))"

text \<open>
  One iteration of the loop of \<open>calc_cohen_kappa_for_case\<close>, for a hull already
  rasterized on the reference grid: the record is (kappa, realized simulated cutoff,
  observed elapsed seconds).
\<close>

definition score_hull :: "grid \<Rightarrow> nat list list \<Rightarrow> real \<Rightarrow> error + (fval \<times> fval \<times> real)" where
  "score_hull arr viirs_bin time_sec =
     (case simulated_mask arr time_sec of
        Inl e \<Rightarrow> Inl e
      | Inr (burnt, sim_time) \<Rightarrow>
          (let v = map (map valid) arr;
               y_sim = select burnt v;
               y_obs = select viirs_bin v
           in case kappa_record y_sim y_obs of
                Inl e \<Rightarrow> Inl e
              | Inr kappa \<Rightarrow> Inr (kappa, sim_time, time_sec)))"

fun score_hulls ::
  "grid \<Rightarrow> ('h \<Rightarrow> nat list list) \<Rightarrow> instant \<Rightarrow> (naive \<times> 'h) list
     \<Rightarrow> error + (fval list \<times> fval list \<times> real list)" where
  "score_hulls arr rasterize t0 [] = Inr ([], [], [])"
| "score_hulls arr rasterize t0 ((t, h) # rest) =
     (case score_hull arr (rasterize h) (real_of_int (naive_seconds t - t0)) of
        Inl e \<Rightarrow> Inl e
      | Inr (kappa, sim_time, time_sec) \<Rightarrow>
          (case score_hulls arr rasterize t0 rest of
             Inl e \<Rightarrow> Inl e
           | Inr (kappas, times_simu, times_viirs) \<Rightarrow>
               Inr (kappa # kappas, sim_time # times_simu, time_sec # times_viirs)))"

text \<open>
  The scorer. The hulls are the dictionary built by the reconstructor, keyed by tz-naive
  timestamps (read as UTC) and visited in the order of their keys. The reference raster
  is given by its shape when it can be opened. The rasterization of a hull on the
  reference grid (reprojection included) is a parameter.
\<close>

definition calc_cohen_kappa_for_case ::
  "(string \<Rightarrow> error + naive) \<Rightarrow> tzdb \<Rightarrow> ('h \<Rightarrow> nat list list) \<Rightarrow> grid
     \<Rightarrow> (naive \<times> 'h) list \<Rightarrow> start_time \<Rightarrow> (nat \<times> nat) option
     \<Rightarrow> error + (fval list \<times> fval list \<times> real list)" where
  "calc_cohen_kappa_for_case to_datetime db rasterize toa_field hulls_by_halfday start_time ref =
     (case parse_start_to_utc to_datetime db start_time of
        Inl e \<Rightarrow> Inl e
      | Inr t0 \<Rightarrow>
          (case ref of
             None \<Rightarrow> Inl RasterioIOError
           | Some ref_shape \<Rightarrow>
               if shape toa_field \<noteq> ref_shape
               then Inl (GridMismatch (shape toa_field) ref_shape)
               else score_hulls toa_field rasterize t0
                      (sort_key (\<lambda>p. naive_seconds (fst p)) hulls_by_halfday)))"

text \<open>A vector holds a single class when exactly one label occurs in it.\<close>

definition single_class :: "nat list \<Rightarrow> bool" where
  "single_class ys = (ys \<noteq> [] \<and> list_all (\<lambda>y. y = ys ! 0) ys)"

definition valid_cells :: "grid \<Rightarrow> bool list list" where
  "valid_cells arr = map (map valid) arr"

definition all_invalid_grid :: grid where
  "all_invalid_grid = [[Cell NaN False, Cell NaN False]]"


definition is_grid_mismatch :: "error + 'a \<Rightarrow> bool" where
  "is_grid_mismatch r = (case r of Inl (GridMismatch a b) \<Rightarrow> True | _ \<Rightarrow> False)"

definition scenario_mask :: "nat list list" where
  "scenario_mask = [[1, 1, 0, 0], [1, 0, 0, 0], [0, 0, 0, 0], [0, 0, 0, 0]]"

definition early_hull :: "(naive \<times> nat list list) list" where
  "early_hull = [(Naive 2017 10 8 9 30 0, scenario_mask)]"


section \<open>Verified properties\<close>

subsection \<open>Simulated burn mask and realized cutoff\<close>

lemma burn_cell_iff:
  "(valid c \<and> fle (data c) (Fin t) \<and> flt (Fin 0) (data c)) = burned_by t c"
  by (cases c; cases "data c") (auto simp: valid_def burned_by_def flt_def)

lemma burn_mask_eq: "burn_mask arr t = map (map (burned_by t)) arr"
  by (simp add: burn_mask_def burn_cell_iff)

lemma burned_by_nonpos: "t \<le> 0 \<Longrightarrow> \<not> burned_by t c"
  by (auto simp: burned_by_def split: fval.splits)

lemma select_row:
  "map fst (filter snd (zip (map data r) (map (burned_by t) r)))
     = map Fin (concat (map (\<lambda>c. case data c of Fin x \<Rightarrow> (if burned_by t c then [x] else []) | _ \<Rightarrow> []) r))"
  by (induction r) (auto simp: burned_by_def split: fval.splits)

lemma select_burned:
  "select (map (map data) arr) (map (map (burned_by t)) arr) = map Fin (burned_times arr t)"
  unfolding select_def burned_times_def
  by (induction arr) (simp_all add: select_row)

lemma row_any:
  "list_ex (\<lambda>b. b) (map (burned_by t) r)
     = (concat (map (\<lambda>c. case data c of Fin x \<Rightarrow> (if burned_by t c then [x] else []) | _ \<Rightarrow> []) r) \<noteq> [])"
  by (induction r) (auto simp: burned_by_def split: fval.splits)

lemma any_burned: "any_true (map (map (burned_by t)) arr) = (burned_times arr t \<noteq> [])"
  unfolding any_true_def burned_times_def
  by (induction arr) (simp_all add: row_any)

lemma fold_fmax_Fin: "fold fmax (map Fin xs) (Fin y) = Fin (fold max xs y)"
proof (induction xs arbitrary: y)
  case Nil
  show ?case by simp
next
  case (Cons x xs)
  have step: "fmax (Fin x) (Fin y) = Fin (max x y)"
    by (simp add: fmax_def max_def)
  show ?case using Cons.IH[of "max x y"] step by simp
qed

lemma nanmax_Fin: "xs \<noteq> [] \<Longrightarrow> nanmax (map Fin xs) = Inr (Fin (Max (set xs)))"
proof (cases xs)
  case Nil
  then show "xs \<noteq> [] \<Longrightarrow> ?thesis" by simp
next
  case (Cons x ys)
  then show ?thesis
    by (simp add: nanmax_def fold_fmax_Fin Max.set_eq_fold del: set_simps)
qed

lemma burned_times_nonpos: "t \<le> 0 \<Longrightarrow> burned_times arr t = []"
  unfolding burned_times_def using burned_by_nonpos[of t]
  by (auto split: fval.splits)

lemma no_burned_zeros:
  assumes "burned_times arr t = []"
  shows "map (map (\<lambda>c. if burned_by t c then 1 else 0)) arr = map (map (\<lambda>c. 0::nat)) arr"
proof -
  have "\<not> burned_by t c" if "r \<in> set arr" "c \<in> set r" for r c
    using assms that unfolding burned_times_def burned_by_def
    by (auto split: fval.splits if_splits)
  then show ?thesis by (auto intro!: map_cong)
qed

lemma simulated_mask_general:
  "simulated_mask arr t =
     Inr (map (map (\<lambda>c. if burned_by t c then 1 else 0)) arr, realized_cutoff arr t)"
proof (cases "0 < t")
  case True
  show ?thesis
  proof (cases "burned_times arr t = []")
    case e: True
    show ?thesis using True e no_burned_zeros[OF e]
      by (simp add: simulated_mask_def burn_mask_eq any_burned realized_cutoff_def Let_def)
  next
    case False
    then show ?thesis using True
      by (simp add: simulated_mask_def burn_mask_eq any_burned realized_cutoff_def Let_def
          select_burned nanmax_Fin comp_def)
  qed
next
  case False
  then have e: "burned_times arr t = []" by (simp add: burned_times_nonpos)
  show ?thesis using False e no_burned_zeros[OF e]
    by (simp add: simulated_mask_def realized_cutoff_def)
qed

text \<open>
  Claim C1. For every arrival-time grid and every elapsed time, the simulated mask marks a
  cell with 1 exactly when the cell is unmasked and its arrival time is finite, strictly
  positive and at most the elapsed seconds, and with 0 otherwise; the realized cutoff is the
  maximum arrival time among the burned cells, NaN when there is none; with elapsed seconds
  at most zero the mask is all zeros. On the 4x4 scenario grid at cutoff 3 the mask is
  [[1,1,0,0],[1,0,0,0],[0,0,0,0],[0,0,0,0]] and the realized cutoff is 3.
\<close>

theorem simulated_mask_burned_iff:
  "simulated_mask arr t =
      Inr (map (map (\<lambda>c. if burned_by t c then 1 else 0)) arr, realized_cutoff arr t)
   \<and> (t \<le> 0 \<longrightarrow> simulated_mask arr t = Inr (map (map (\<lambda>c. 0)) arr, NaN))
   \<and> simulated_mask scenario_grid 3 =
      Inr ([[1, 1, 0, 0], [1, 0, 0, 0], [0, 0, 0, 0], [0, 0, 0, 0]], Fin 3)"
proof (intro conjI impI)
  show "simulated_mask arr t =
      Inr (map (map (\<lambda>c. if burned_by t c then 1 else 0)) arr, realized_cutoff arr t)"
    by (rule simulated_mask_general)
  show "simulated_mask arr t = Inr (map (map (\<lambda>c. 0)) arr, NaN)" if "t \<le> 0"
    using that by (simp add: simulated_mask_def)
  show "simulated_mask scenario_grid 3 =
      Inr ([[1, 1, 0, 0], [1, 0, 0, 0], [0, 0, 0, 0], [0, 0, 0, 0]], Fin 3)"
    by (simp add: simulated_mask_general scenario_grid_def nd_def burned_by_def
        realized_cutoff_def burned_times_def)
qed

theorem simulated_mask_burned_iff_witness:
  "(0::real) \<le> 0 \<and>
   simulated_mask scenario_grid 0 =
     Inr ([[0, 0, 0, 0], [0, 0, 0, 0], [0, 0, 0, 0], [0, 0, 0, 0]], NaN)"
  using simulated_mask_burned_iff [of scenario_grid 0, THEN conjunct2, THEN conjunct1]
  by (simp add: scenario_grid_def)

subsection \<open>Start-time parsing\<close>

lemma space_upper: "is_space c \<Longrightarrow> to_upper c = c"
  by (auto simp: is_space_def to_upper_def Let_def)

lemma token_shape:
  assumes "map to_upper tok \<in> set tz_tokens"
  shows "length tok = 3" and "\<not> is_space (last tok)" and "tok \<noteq> []"
    and "map_of tz_map (map to_upper tok) = Some (resolved_zone tok)"
proof -
  from assms obtain a b c where tok: "tok = [a, b, c]"
    by (cases tok; cases "tl tok"; cases "tl (tl tok)"; cases "tl (tl (tl tok))")
       (auto simp: tz_tokens_def)
  show "length tok = 3" "tok \<noteq> []" using tok by simp_all
  have "to_upper c = CHR ''T'' \<or> to_upper c = CHR ''C''"
    using assms tok by (auto simp: tz_tokens_def)
  moreover have "\<not> is_space (CHR ''T'')" "\<not> is_space (CHR ''C'')"
    by (simp_all add: is_space_def)
  ultimately show "\<not> is_space (last tok)"
    using space_upper[of c] tok by auto
  show "map_of tz_map (map to_upper tok) = Some (resolved_zone tok)"
    using assms by (auto simp: tz_tokens_def tz_map_def resolved_zone_def)
qed

lemma tz_search_suffix:
  assumes "map to_upper tok \<in> set tz_tokens"
    and "case (if pre = [] then prev else Some (last pre)) of None \<Rightarrow> True | Some p \<Rightarrow> \<not> is_word p"
  shows "tz_search i prev (pre @ tok) = Some (i + length pre, tok)"
  using assms(2)
proof (induction pre arbitrary: i prev)
  case Nil
  have l: "length tok = 3" using token_shape(1)[OF assms(1)] .
  then obtain c cs where tok: "tok = c # cs" by (cases tok) auto
  have "tz_match_at prev tok"
    using Nil assms(1) l by (simp add: tz_match_at_def)
  then show ?case using tok l by simp
next
  case (Cons p ps)
  have l: "length tok = 3" and ns: "\<not> is_space (last tok)" and ne: "tok \<noteq> []"
    using token_shape[OF assms(1)] by simp_all
  have "last tok \<in> set (drop 3 (p # ps @ tok))"
  proof -
    have "drop 3 (p # ps @ tok) = drop 3 (p # ps) @ drop (3 - length (p # ps)) tok"
      by simp
    moreover have "3 - length (p # ps) < 3" by simp
    then have "drop (3 - length (p # ps)) tok \<noteq> []" using l by simp
    then have "last (drop (3 - length (p # ps)) tok) = last tok" by (simp add: last_drop l)
    ultimately show ?thesis
      by (metis Un_iff \<open>drop (3 - length (p # ps)) tok \<noteq> []\<close> last_in_set set_append)
  qed
  then have "\<not> list_all is_space (drop 3 (p # ps @ tok))"
    using ns by (auto simp: list_all_iff)
  then have nm: "\<not> tz_match_at prev (p # ps @ tok)"
    by (simp add: tz_match_at_def)
  have "case (if ps = [] then Some p else Some (last ps)) of None \<Rightarrow> True | Some q \<Rightarrow> \<not> is_word q"
    using Cons.prems by (auto split: if_splits)
  from Cons.IH[OF this, of "Suc i"] nm show ?case by simp
qed

lemma strip_stripped: "strip s = [] \<or> \<not> is_space (last (strip s))"
proof (cases "dropWhile is_space (rev (dropWhile is_space s)) = []")
  case True
  then show ?thesis by (simp add: strip_def)
next
  case False
  then have "\<not> is_space (hd (dropWhile is_space (rev (dropWhile is_space s))))"
    by (rule hd_dropWhile)
  then show ?thesis using False by (simp add: strip_def last_rev)
qed

lemma tz_search_sound:
  assumes "tz_search i prev s = Some (j, tok)"
  shows "\<exists>pre rest. s = pre @ rest \<and> tok = take 3 rest \<and> j = i + length pre
           \<and> tz_match_at (if pre = [] then prev else Some (last pre)) rest"
  using assms
proof (induction s arbitrary: i prev)
  case Nil
  then show ?case by simp
next
  case (Cons c cs)
  show ?case
  proof (cases "tz_match_at prev (c # cs)")
    case True
    then have "j = i" "tok = take 3 (c # cs)" using Cons.prems by simp_all
    then show ?thesis using True by (intro exI[of _ "[]"] exI[of _ "c # cs"]) simp
  next
    case False
    then have "tz_search (Suc i) (Some c) cs = Some (j, tok)" using Cons.prems by simp
    from Cons.IH[OF this] obtain pre rest where
      r: "cs = pre @ rest" "tok = take 3 rest" "j = Suc i + length pre"
         "tz_match_at (if pre = [] then Some c else Some (last pre)) rest"
      by blast
    show ?thesis
      using r by (intro exI[of _ "c # pre"] exI[of _ rest]) auto
  qed
qed

lemma zone_suffix_search:
  assumes "s = [] \<or> \<not> is_space (last s)"
  shows "tz_search 0 None s = map_option (\<lambda>(pre, tok). (length pre, tok)) (zone_suffix s)"
proof (cases "zone_suffix s")
  case (Some pt)
  obtain pre tok where pt: "pt = (pre, tok)" by (cases pt)
  let ?n = "length s"
  have c: "3 \<le> ?n" "map to_upper (drop (?n - 3) s) \<in> set tz_tokens"
    "?n = 3 \<or> \<not> is_word (s ! (?n - 4))" "pre = take (?n - 3) s" "tok = drop (?n - 3) s"
    using Some pt by (auto simp: zone_suffix_def Let_def split: if_splits)
  have s: "s = pre @ tok" using c(4,5) by simp
  have lp: "length pre = ?n - 3" using c(1,4) by simp
  have b: "case (if pre = [] then None else Some (last pre)) of None \<Rightarrow> True | Some p \<Rightarrow> \<not> is_word p"
  proof (cases "pre = []")
    case True
    then show ?thesis by simp
  next
    case False
    then have "?n \<noteq> 3" using lp by auto
    moreover have "last pre = s ! (?n - 4)"
    proof -
      have "last pre = pre ! (length pre - 1)" using False by (rule last_conv_nth)
      also have "\<dots> = s ! (length pre - 1)" using False s by (simp add: nth_append)
      also have "length pre - 1 = ?n - 4" using lp by simp
      finally show ?thesis .
    qed
    ultimately show ?thesis using c(3) False by simp
  qed
  have "tz_search 0 None (pre @ tok) = Some (0 + length pre, tok)"
    using c(2,5) b by (intro tz_search_suffix) simp_all
  then show ?thesis using Some pt s by simp
next
  case None
  have "tz_search 0 None s = None"
  proof (rule ccontr)
    assume "tz_search 0 None s \<noteq> None"
    then obtain j tok where "tz_search 0 None s = Some (j, tok)" by auto
    from tz_search_sound[OF this] obtain pre rest where
      r: "s = pre @ rest" "tok = take 3 rest" "j = 0 + length pre"
         "tz_match_at (if pre = [] then None else Some (last pre)) rest"
      by blast
    have m: "3 \<le> length rest" "map to_upper (take 3 rest) \<in> set tz_tokens"
      "list_all is_space (drop 3 rest)"
      "case (if pre = [] then None else Some (last pre)) of None \<Rightarrow> True | Some p \<Rightarrow> \<not> is_word p"
      using r(4) by (simp_all add: tz_match_at_def)
    have rne: "rest \<noteq> []" using m(1) by auto
    have "drop 3 rest = []"
    proof (rule ccontr)
      assume d: "drop 3 rest \<noteq> []"
      then have "last (drop 3 rest) = last s" using r(1) rne by (simp add: last_drop)
      moreover have "last (drop 3 rest) \<in> set (drop 3 rest)" using d by (rule last_in_set)
      then have "is_space (last (drop 3 rest))" using m(3) unfolding list_all_iff by blast
      moreover have "s \<noteq> []" using r(1) rne by simp
      ultimately show False using assms by auto
    qed
    then have l3: "length rest = 3" using m(1) by simp
    then have n: "length s = length pre + 3" using r(1) by simp
    have dr: "drop (length s - 3) s = rest" "take (length s - 3) s = pre"
      using n r(1) by simp_all
    have bd: "length s = 3 \<or> \<not> is_word (s ! (length s - 4))"
    proof (cases "pre = []")
      case True
      then show ?thesis using n by simp
    next
      case False
      have "last pre = pre ! (length pre - 1)" using False by (rule last_conv_nth)
      also have "\<dots> = s ! (length pre - 1)" using False r(1) by (simp add: nth_append)
      also have "length pre - 1 = length s - 4" using n by simp
      finally have "last pre = s ! (length s - 4)" .
      then show ?thesis using m(4) False by simp
    qed
    have "zone_suffix s \<noteq> None"
      using n dr bd m(2) l3 by (simp add: zone_suffix_def Let_def)
    then show False using None by simp
  qed
  then show ?thesis using None by simp
qed

lemma parse_start_string:
  "parse_start_to_utc P db (StartStr str) =
     (let s = strip (comma_to_space str) in
      case zone_suffix s of
        Some (pre, tok) \<Rightarrow>
          (case P (strip pre) of
             Inl e \<Rightarrow> Inl e
           | Inr ts \<Rightarrow> tz_localize db (resolved_zone tok) ts)
      | None \<Rightarrow>
          (case P s of
             Inl e \<Rightarrow> Inl e
           | Inr ts \<Rightarrow> tz_localize db UTC ts))"
proof -
  define s where "s = strip (comma_to_space str)"
  have st: "s = [] \<or> \<not> is_space (last s)" unfolding s_def by (rule strip_stripped)
  note zs = zone_suffix_search[OF st]
  show ?thesis
  proof (cases "zone_suffix s")
    case None
    then show ?thesis using zs by (simp add: parse_start_to_utc_def s_def[symmetric] Let_def)
  next
    case (Some pt)
    obtain pre tok where pt: "pt = (pre, tok)" by (cases pt)
    have c: "map to_upper tok \<in> set tz_tokens" "pre = take (length s - 3) s" "3 \<le> length s"
      using Some pt by (auto simp: zone_suffix_def Let_def split: if_splits)
    have z: "map_of tz_map (map to_upper tok) = Some (resolved_zone tok)"
      by (rule token_shape(4)[OF c(1)])
    have lp: "take (length pre) s = pre" using c(2,3) by simp
    show ?thesis using zs Some pt z lp
      by (simp add: parse_start_to_utc_def s_def[symmetric] Let_def)
  qed
qed

text \<open>
  Claim C4 (amended). The start-time string "2020-01-01, 09:00 PDT" is parsed to
  2020-01-01T17:00:00Z: the recognized PDT token resolves to the Los Angeles zone, whose
  offset on that date is eight hours. More generally, for every start-time string, with
  commas read as spaces and the surrounding white space trimmed: a recognized trailing
  zone token is stripped, the trimmed remainder is parsed as a naive date/time and
  localized in the zone the token resolves to; without such a token the whole string is
  parsed and localized in UTC; the result is the UTC instant.
\<close>

theorem parse_start_zone_token:
  "parse_start_to_utc P db (StartStr str) =
     (let s = strip (comma_to_space str) in
      case zone_suffix s of
        Some (pre, tok) \<Rightarrow>
          (case P (strip pre) of
             Inl e \<Rightarrow> Inl e
           | Inr ts \<Rightarrow> tz_localize db (resolved_zone tok) ts)
      | None \<Rightarrow>
          (case P s of
             Inl e \<Rightarrow> Inl e
           | Inr ts \<Rightarrow> tz_localize db UTC ts))
   \<and> parse_start_to_utc iso_to_datetime zoneinfo (StartStr ''2020-01-01, 09:00 PDT'')
       = Inr (naive_seconds (Naive 2020 1 1 17 0 0))"
proof
  show "parse_start_to_utc P db (StartStr str) =
     (let s = strip (comma_to_space str) in
      case zone_suffix s of
        Some (pre, tok) \<Rightarrow>
          (case P (strip pre) of
             Inl e \<Rightarrow> Inl e
           | Inr ts \<Rightarrow> tz_localize db (resolved_zone tok) ts)
      | None \<Rightarrow>
          (case P s of
             Inl e \<Rightarrow> Inl e
           | Inr ts \<Rightarrow> tz_localize db UTC ts))"
    by (rule parse_start_string)
  show "parse_start_to_utc iso_to_datetime zoneinfo (StartStr ''2020-01-01, 09:00 PDT'')
       = Inr (naive_seconds (Naive 2020 1 1 17 0 0))"
    by code_simp
qed

theorem parse_start_zone_token_witness:
  "zone_suffix (strip (comma_to_space ''2017-10-08, 21:45,pst '')) = Some (''2017-10-08  21:45 '', ''pst'')
   \<and> parse_start_to_utc iso_to_datetime zoneinfo (StartStr ''2017-10-08, 21:45,pst '')
       = Inr (naive_seconds (Naive 2017 10 9 4 45 0))"
proof -
  have z: "zone_suffix (strip (comma_to_space ''2017-10-08, 21:45,pst ''))
             = Some (''2017-10-08  21:45 '', ''pst'')"
    by code_simp
  have p: "iso_to_datetime (strip ''2017-10-08  21:45 '') = Inr (Naive 2017 10 8 21 45 0)"
    by code_simp
  have l: "tz_localize zoneinfo (resolved_zone ''pst'') (Naive 2017 10 8 21 45 0)
             = Inr (naive_seconds (Naive 2017 10 9 4 45 0))"
    by code_simp
  have "parse_start_to_utc iso_to_datetime zoneinfo (StartStr ''2017-10-08, 21:45,pst '')
       = Inr (naive_seconds (Naive 2017 10 9 4 45 0))"
    using parse_start_zone_token [of iso_to_datetime zoneinfo "''2017-10-08, 21:45,pst ''", THEN conjunct1]
    unfolding z Let_def by (simp add: p l)
  then show ?thesis using z by simp
qed

theorem parse_start_pdt_counterexample:
  "parse_start_to_utc iso_to_datetime zoneinfo (StartStr ''2020-01-01, 09:00 PDT'')
     \<noteq> Inr (naive_seconds (Naive 2020 1 1 16 0 0))"
  by code_simp

subsection \<open>Half-day cohorts\<close>

text \<open>
  Within one calendar month the half-day window of an observation and its cohort index
  differ by a constant.
\<close>

lemma half_day_window_eq:
  assumes "valid_naive t"
  shows "half_day_window t = (ymd2ord (year t) (month t) (day t) - 719163) * 2 + hour t div 12"
proof -
  define D where "D = ymd2ord (year t) (month t) (day t) - 719163"
  define q where "q = hour t div 12"
  define m where "m = hour t mod 12"
  define r where "r = minute t * 60 + second t"
  have h: "hour t = 12 * q + m" by (simp add: q_def m_def)
  have m: "0 \<le> m" "m < 12" by (simp_all add: m_def)
  have r: "0 \<le> r" "r < 3600"
    using assms by (simp_all add: valid_naive_def r_def)
  have "naive_seconds t = D * 86400 + (12 * q + m) * 3600 + r"
    unfolding naive_seconds_def D_def r_def h [symmetric] by simp
  also have "\<dots> = (m * 3600 + r) + (D * 2 + q) * 43200"
    by (simp add: algebra_simps)
  finally have e: "naive_seconds t = (m * 3600 + r) + (D * 2 + q) * 43200" .
  have lo: "0 \<le> m * 3600 + r" using m r by simp
  have hi: "m * 3600 + r < 43200" using m r by linarith
  have "naive_seconds t div 43200 = D * 2 + q"
    unfolding e using lo hi by (simp add: div_pos_pos_trivial)
  then show ?thesis by (simp add: half_day_window_def D_def q_def)
qed

lemma same_month_shift:
  assumes "valid_naive a" "valid_naive b" "year a = year b" "month a = month b"
  shows "half_day_window a - half_day_window b = half_day_of a - half_day_of b"
  using assms
  by (simp add: half_day_window_eq half_day_of_def ymd2ord_def)

lemma with_obs_half_day: "half_day (with_obs p) = half_day_of (observation_time (with_obs p))"
  by (simp add: with_obs_def row.extend_def)

lemma stable_sort_admissible: "admissible_sort stable_sort"
  by (simp add: admissible_sort_def stable_sort_def)

lemma admissible_sort_distinct:
  assumes "admissible_sort sv" "distinct (map (\<lambda>p. naive_seconds (snd p)) ps)"
  shows "sv ps = stable_sort ps"
proof -
  let ?f = "\<lambda>p. naive_seconds (snd p)"
  have d: "distinct ps" and inj: "inj_on ?f (set ps)" using assms(2) by (simp_all add: distinct_map)
  have x: "set (sv ps) = set ps" "length (sv ps) = length ps" "sorted (map ?f (sv ps))"
    using assms(1) by (simp_all add: admissible_sort_def)
  have y: "set (stable_sort ps) = set ps" "sorted (map ?f (stable_sort ps))" "distinct (stable_sort ps)"
    using d by (simp_all add: stable_sort_def)
  have "card (set (sv ps)) = length (sv ps)" using x d by (simp add: distinct_card)
  then have dx: "distinct (sv ps)" by (rule card_distinct)
  have "map ?f (sv ps) = map ?f (stable_sort ps)"
  proof (rule sorted_distinct_set_unique)
    show "distinct (map ?f (sv ps))" using dx inj x(1) by (simp add: distinct_map)
    show "distinct (map ?f (stable_sort ps))" using y inj by (simp add: distinct_map)
    show "set (map ?f (sv ps)) = set (map ?f (stable_sort ps))" using x(1) y(1) by simp
  qed (use x y in simp_all)
  moreover have "inj_on ?f (set (sv ps) \<union> set (stable_sort ps))" using inj x(1) y(1) by simp
  ultimately show ?thesis by (simp add: inj_on_map_eq_map)
qed

lemma cross_month_any_sort:
  assumes "admissible_sort sv"
  shows "add_viirs_obstime sv cross_month_detections
           = add_viirs_obstime stable_sort cross_month_detections"
proof -
  obtain ps where ps: "combine_all cross_month_detections = Inr ps"
    and d: "distinct (map (\<lambda>p. naive_seconds (snd p)) ps)"
  proof
    show "combine_all cross_month_detections =
            Inr (map (\<lambda>r. (r, add_hours_minutes (ACQ_DATE r) 8 0)) cross_month_detections)"
      by code_simp
    show "distinct (map (\<lambda>p. naive_seconds (snd p))
            (map (\<lambda>r. (r, add_hours_minutes (ACQ_DATE r) 8 0)) cross_month_detections))"
      by code_simp
  qed
  show ?thesis
    using admissible_sort_distinct[OF assms d] ps by (simp add: add_viirs_obstime_def)
qed

text \<open>
  Claim C5. The cohort index 2 * day-of-month + (1 if hour >= 12 else 0) does not order
  the half-day windows across a month boundary. The detections of 1 October, 31 October
  and 1 November, each at 08:00, are in the windows 34880, 34940 and 34942 and get the
  indices 2, 62 and 2: the latest window has the smallest index and shares it with the
  earliest one. The reconstructor then puts the detections of 1 October and 1 November
  into one cohort, keyed 1 November, and the hull keyed 31 October is built from all
  three points, the one of 1 November included.
\<close>

theorem half_day_cross_month:
  "cohort_table cross_month_detections = [(2, 34880), (62, 34940), (2, 34942)]
   \<and> cross_month_hulls lib ratio holes eps =
       [(Naive 2017 11 1 8 0 0, cohort_hull lib [GeomPoint 1 1, GeomPoint 3 3] ratio holes eps),
        (Naive 2017 10 31 8 0 0,
         cohort_hull lib [GeomPoint 1 1, GeomPoint 3 3, GeomPoint 2 2] ratio holes eps)]"
proof
  show "cohort_table cross_month_detections = [(2, 34880), (62, 34940), (2, 34942)]"
    by code_simp
  have o: "add_viirs_obstime stable_sort cross_month_detections =
      Inr [observed (Naive 2017 10 1 8 0 0) ''0800'' 1 1,
           observed (Naive 2017 10 31 8 0 0) ''0800'' 2 2,
           observed (Naive 2017 11 1 8 0 0) ''0800'' 3 3]"
    by code_simp
  have g: "sort_key half_day (sort_key (\<lambda>r. naive_seconds (observation_time r))
             (filter has_geometry
               [observed (Naive 2017 10 1 8 0 0) ''0800'' 1 1,
                observed (Naive 2017 10 31 8 0 0) ''0800'' 2 2,
                observed (Naive 2017 11 1 8 0 0) ''0800'' 3 3]))
           = [observed (Naive 2017 10 1 8 0 0) ''0800'' 1 1,
              observed (Naive 2017 11 1 8 0 0) ''0800'' 3 3,
              observed (Naive 2017 10 31 8 0 0) ''0800'' 2 2]"
    by code_simp
  have hd: "map half_day [observed (Naive 2017 10 1 8 0 0) ''0800'' 1 1,
              observed (Naive 2017 11 1 8 0 0) ''0800'' 3 3,
              observed (Naive 2017 10 31 8 0 0) ''0800'' 2 2] = [2, 2, 62]"
    by code_simp
  have ks: "sort (remdups [2, 2, 62 :: int]) = [2, 62]" by code_simp
  have t1: "t_rep [observed (Naive 2017 10 1 8 0 0) ''0800'' 1 1,
              observed (Naive 2017 11 1 8 0 0) ''0800'' 3 3] = Some (Naive 2017 11 1 8 0 0)"
    by code_simp
  have t2: "t_rep [observed (Naive 2017 10 31 8 0 0) ''0800'' 2 2] = Some (Naive 2017 10 31 8 0 0)"
    by code_simp
  have hv: "half_day (observed (Naive 2017 10 1 8 0 0) ''0800'' 1 1) = 2"
    "half_day (observed (Naive 2017 11 1 8 0 0) ''0800'' 3 3) = 2"
    "half_day (observed (Naive 2017 10 31 8 0 0) ''0800'' 2 2) = 62"
    by code_simp+
  have gv: "geometry (observed (Naive 2017 10 1 8 0 0) ''0800'' 1 1) = GeomPoint 1 1"
    "geometry (observed (Naive 2017 11 1 8 0 0) ''0800'' 3 3) = GeomPoint 3 3"
    "geometry (observed (Naive 2017 10 31 8 0 0) ''0800'' 2 2) = GeomPoint 2 2"
    by (simp_all add: observed_def)
  let ?a = "observed (Naive 2017 10 1 8 0 0) ''0800'' 1 1"
  let ?b = "observed (Naive 2017 10 31 8 0 0) ''0800'' 2 2"
  let ?c = "observed (Naive 2017 11 1 8 0 0) ''0800'' 3 3"
  have "cross_month_hulls lib ratio holes eps
          = viirs_concave_hulls_by_halfday lib [?a, ?b, ?c] ratio holes eps"
    by (simp add: cross_month_hulls_def o)
  also have "\<dots> = hull_loop lib ratio holes eps [?a, ?c, ?b]
                      (sort (remdups (map half_day [?a, ?c, ?b]))) [] []"
    unfolding viirs_concave_hulls_by_halfday_def Let_def g ..
  also have "\<dots> = hull_loop lib ratio holes eps [?a, ?c, ?b] [2, 62] [] []"
    unfolding hd ks ..
  also have "\<dots> =
       [(Naive 2017 11 1 8 0 0, cohort_hull lib [GeomPoint 1 1, GeomPoint 3 3] ratio holes eps),
        (Naive 2017 10 31 8 0 0,
         cohort_hull lib [GeomPoint 1 1, GeomPoint 3 3, GeomPoint 2 2] ratio holes eps)]"
    by (simp add: hv gv t1 t2 Let_def)
  finally show "cross_month_hulls lib ratio holes eps =
       [(Naive 2017 11 1 8 0 0, cohort_hull lib [GeomPoint 1 1, GeomPoint 3 3] ratio holes eps),
        (Naive 2017 10 31 8 0 0,
         cohort_hull lib [GeomPoint 1 1, GeomPoint 3 3, GeomPoint 2 2] ratio holes eps)]" .
qed

subsection \<open>Detection loader\<close>

text \<open>
  Claim C8 (amended). The loader fails with a file-not-found error when no shapefile is
  found. When shapefiles are found and read, it returns the records that have a geometry,
  and an empty detection set when no record survives; it raises no error in that case.
\<close>

theorem load_viirs_points_outcomes:
  "load_viirs_points rp rf w [] = Inl FileNotFound
   \<and> (shps \<noteq> [] \<longrightarrow> read_all rp rf shps = Inr gdfs \<longrightarrow>
        load_viirs_points rp rf w shps =
          Inr (if concat gdfs = [] then [] else filter has_geometry (w (concat gdfs))))"
  by (simp add: load_viirs_points_def)

theorem load_viirs_points_outcomes_witness:
  "[geometryless_file, one_month_detections] \<noteq> []
   \<and> read_all Inr Inr [geometryless_file, one_month_detections]
        = Inr [geometryless_file, one_month_detections]
   \<and> load_viirs_points Inr Inr id [geometryless_file, one_month_detections]
        = Inr one_month_detections"
proof -
  have r: "read_all Inr Inr [geometryless_file, one_month_detections]
        = Inr [geometryless_file, one_month_detections]"
    by code_simp
  have f: "(if concat [geometryless_file, one_month_detections] = [] then []
            else filter has_geometry (id (concat [geometryless_file, one_month_detections])))
           = one_month_detections"
    by code_simp
  show ?thesis
    using load_viirs_points_outcomes [of Inr Inr id "[geometryless_file, one_month_detections]"
        "[geometryless_file, one_month_detections]"] r f
    by simp
qed

theorem load_viirs_points_empty_counterexample:
  "load_viirs_points Inr Inr id [geometryless_file] = Inr []"
  by code_simp

subsection \<open>Burn-area history in exact mode\<close>

lemma cumsum_from_bounds: "\<forall>y\<in>set (cumsum_from a xs). a \<le> y"
proof (induction xs arbitrary: a)
  case Nil show ?case by simp
next
  case (Cons x xs)
  have "\<forall>y\<in>set (cumsum_from (a + x) xs). a \<le> y"
    using Cons.IH[of "a + x"] by auto
  then show ?case by simp
qed

lemma sorted_cumsum_from: "sorted (cumsum_from a xs)"
  by (induction xs arbitrary: a) (simp_all add: cumsum_from_bounds)

lemma last_cumsum_from: "xs \<noteq> [] \<Longrightarrow> last (cumsum_from a xs) = a + sum_list xs"
proof (induction xs arbitrary: a)
  case Nil then show ?case by simp
next
  case (Cons x xs)
  show ?case
  proof (cases xs)
    case Nil then show ?thesis by simp
  next
    case (Cons y ys)
    then have "cumsum_from (a + x) xs \<noteq> []" by simp
    then show ?thesis using Cons.IH[of "a + x"] Cons by (simp add: add.assoc)
  qed
qed

lemma count_total: "sum_list (map (count_list v) (sort (remdups v))) = length v"
proof -
  have "sum_list (map (count_list v) (sort (remdups v))) = sum (count_list v) (set (sort (remdups v)))"
    by (rule sum_list_distinct_conv_sum_set) simp
  also have "\<dots> = sum (count_list v) (set v)" by simp
  also have "\<dots> = length v" by (rule sum_count_set) simp_all
  finally show ?thesis .
qed

lemma length_filter_sort: "length (filter P (sort xs)) = length (filter P xs)"
  by (simp add: filter_sort)

lemma positive_finite_values:
  "length (filter (\<lambda>v. 0 < v) (finite_values a)) = positive_cells a"
proof -
  have "length (filter (\<lambda>v. 0 < v) (List.map_filter (\<lambda>c. case data c of Fin x \<Rightarrow> (if valid c then Some x else None) | _ \<Rightarrow> None) cs))
      = length (filter (\<lambda>c. \<not> mask c \<and> (case data c of Fin x \<Rightarrow> 0 < x | _ \<Rightarrow> False)) cs)" for cs
    by (induction cs) (auto simp: List.map_filter_simps valid_def split: fval.splits)
  then show ?thesis by (simp add: finite_values_def positive_cells_def)
qed

lemma sorted_scaled:
  assumes "sorted (cs :: nat list)" "0 \<le> (s :: real)"
  shows "sorted (map (\<lambda>c. real c * s) cs)"
  using assms
  by (induction cs) (auto simp: mult_right_mono)


lemma exact_curve:
  assumes "filter (\<lambda>v. 0 < v) (sort (finite_values arr)) \<noteq> []"
  shows "burn_area_history_from_toa arr pa None =
           Inr (Curve3 (sort (remdups (filter (\<lambda>v. 0 < v) (sort (finite_values arr)))))
                  (cumsum (map (count_list (filter (\<lambda>v. 0 < v) (sort (finite_values arr))))
                     (sort (remdups (filter (\<lambda>v. 0 < v) (sort (finite_values arr)))))))
                  (map (\<lambda>c. real c * (case pa of None \<Rightarrow> 1 | Some p \<Rightarrow> if p = 0 then 1 else p))
                     (cumsum (map (count_list (filter (\<lambda>v. 0 < v) (sort (finite_values arr))))
                        (sort (remdups (filter (\<lambda>v. 0 < v) (sort (finite_values arr)))))))))"
proof -
  have "finite_values arr \<noteq> []" using assms by auto
  then show ?thesis using assms
    by (simp add: burn_area_history_from_toa_def Let_def)
qed

lemma empty_curve:
  assumes "filter (\<lambda>v. 0 < v) (sort (finite_values arr)) = []"
  shows "burn_area_history_from_toa arr pa ns = Inr (Curve2 [] [])
       \<or> burn_area_history_from_toa arr pa ns = Inr (Curve3 [] [] [])"
  using assms by (simp add: burn_area_history_from_toa_def Let_def)

lemma length_cumsum_from: "length (cumsum_from a xs) = length xs"
  by (induction xs arbitrary: a) simp_all

text \<open>
  Claim C9. For every arrival-time grid (and a per-pixel area that is absent or not
  negative), the exact mode returns a curve and never an error: the times are sorted and
  pairwise distinct, all strictly positive; the cumulative counts and the areas are
  sorted; when the grid has no finite, strictly positive cell the curve is empty, and
  otherwise the last cumulative count is the number of finite, strictly positive cells.
\<close>

theorem burn_history_exact_mode:
  assumes "case pa of None \<Rightarrow> True | Some p \<Rightarrow> 0 \<le> p"
  shows "\<exists>c. burn_area_history_from_toa arr pa None = Inr c
           \<and> sorted (times_of c) \<and> distinct (times_of c) \<and> (\<forall>t\<in>set (times_of c). 0 < t)
           \<and> sorted (counts_of c) \<and> sorted (areas_of c)
           \<and> length (counts_of c) = length (times_of c)
           \<and> length (areas_of c) = length (times_of c)
           \<and> (if positive_cells arr = 0 then times_of c = []
               else last (counts_of c) = positive_cells arr)"
proof (cases "filter (\<lambda>v. 0 < v) (sort (finite_values arr)) = []")
  case True
  then have "positive_cells arr = 0"
    using positive_finite_values[of arr] length_filter_sort[of "\<lambda>v. 0 < v" "finite_values arr"]
    by simp
  then show ?thesis using empty_curve[OF True, of pa None] by auto
next
  case False
  define v where "v = filter (\<lambda>v. 0 < v) (sort (finite_values arr))"
  define u where "u = sort (remdups v)"
  define cs where "cs = cumsum (map (count_list v) u)"
  define s where "s = (case pa of None \<Rightarrow> 1 | Some p \<Rightarrow> if p = 0 then 1 else p)"
  have c: "burn_area_history_from_toa arr pa None = Inr (Curve3 u cs (map (\<lambda>c. real c * s) cs))"
    unfolding v_def u_def cs_def s_def by (rule exact_curve[OF False])
  have s: "0 \<le> s" using assms by (auto simp: s_def split: option.splits)
  have vne: "v \<noteq> []" using False by (simp add: v_def)
  have n: "length v = positive_cells arr"
    unfolding v_def
    using positive_finite_values[of arr] length_filter_sort[of "\<lambda>v. 0 < v" "finite_values arr"]
    by simp
  have "length v \<noteq> 0" using vne by simp
  then have pos: "positive_cells arr \<noteq> 0" unfolding n .
  have "set u = set v" by (simp add: u_def)
  then have "u \<noteq> []" using vne by (metis set_empty)
  then have une: "map (count_list v) u \<noteq> []" by simp
  have l: "last cs = positive_cells arr"
    using last_cumsum_from[OF une, of 0] count_total[of v] n by (simp add: cumsum_def cs_def u_def)
  have len: "length cs = length u"
    by (simp add: cs_def cumsum_def length_cumsum_from)
  have t: "\<forall>t\<in>set u. 0 < t" unfolding \<open>set u = set v\<close> by (simp add: v_def)
  have su: "sorted u" "distinct u" by (simp_all add: u_def)
  have sc: "sorted cs" by (simp add: cs_def cumsum_def sorted_cumsum_from)
  have sa: "sorted (map (\<lambda>c. real c * s) cs)" by (rule sorted_scaled[OF sc s])
  show ?thesis
    unfolding c using l len t pos su sc sa by simp
qed

theorem burn_history_exact_mode_witness:
  "(0::real) \<le> 900 \<and>
   burn_area_history_from_toa scenario_grid (Some 900) None
     = Inr (Curve3 [1, 2, 3, 4] [1, 2, 3, 4] [900, 1800, 2700, 3600])
   \<and> positive_cells scenario_grid = 4"
proof -
  have e: "burn_area_history_from_toa scenario_grid (Some 900) None
     = Inr (Curve3 [1, 2, 3, 4] [1, 2, 3, 4] [900, 1800, 2700, 3600])"
    by code_simp
  obtain c where c: "burn_area_history_from_toa scenario_grid (Some 900) None = Inr c"
    and l: "if positive_cells scenario_grid = 0 then times_of c = []
            else last (counts_of c) = positive_cells scenario_grid"
    using burn_history_exact_mode [of "Some 900" scenario_grid] by auto
  have "c = Curve3 [1, 2, 3, 4] [1, 2, 3, 4] [900, 1800, 2700, 3600]" using c e by simp
  then have "positive_cells scenario_grid = 4" using l by (simp split: if_splits)
  then show ?thesis using e by simp
qed

subsection \<open>Cumulative hulls\<close>











subsection \<open>Kappa and the skill scorer\<close>

lemma fold_max_const: "list_all (\<lambda>z. z = y) rest \<Longrightarrow> fold max rest (y::nat) = y"
  by (induction rest) simp_all

lemma fold_min_const: "list_all (\<lambda>z. z = y) rest \<Longrightarrow> fold min rest (y::nat) = y"
  by (induction rest) simp_all

lemma one_class_single: "single_class ys \<Longrightarrow> one_class ys = Inr True"
  by (cases ys) (simp_all add: single_class_def one_class_def amax_def amin_def
      fold_max_const fold_min_const)

lemma one_class_mixed:
  assumes "a \<in> set ys" "b \<in> set ys" "a < b"
  shows "one_class ys = Inr False"
proof (cases ys)
  case Nil
  then show ?thesis using assms by simp
next
  case (Cons y rest)
  have mx: "fold max rest y = Max (set ys)" and mn: "fold min rest y = Min (set ys)"
    unfolding Cons by (simp_all only: Max.set_eq_fold Min.set_eq_fold)
  have "Min (set ys) \<le> a" "b \<le> Max (set ys)" using assms by simp_all
  then have "Max (set ys) \<noteq> Min (set ys)" using assms(3) by linarith
  then show ?thesis using mx mn Cons by (simp add: one_class_def amax_def amin_def)
qed

lemma kappa_record_single:
  "single_class y_sim \<Longrightarrow> single_class y_obs \<Longrightarrow> kappa_record y_sim y_obs = Inr NaN"
  by (simp add: kappa_record_def one_class_single)

lemma confusion_same_off: "i \<noteq> j \<Longrightarrow> confusion ys ys i j = 0"
  by (auto simp: confusion_def filter_empty_conv zip_same)

lemma confusion_same_diag: "a \<in> set ys \<Longrightarrow> 0 < confusion ys ys a a"
  by (auto simp: confusion_def filter_empty_conv zip_same)

lemma sum_list_pos_member:
  fixes xs :: "real list"
  assumes "\<forall>x\<in>set xs. 0 \<le> x" "y \<in> set xs" "0 < y"
  shows "0 < sum_list xs"
  using assms
proof (induction xs)
  case Nil
  then show ?case by simp
next
  case (Cons x xs)
  have nn: "0 \<le> sum_list xs" using Cons.prems(1) by (simp add: sum_list_nonneg)
  show ?case
  proof (cases "y = x")
    case True
    then show ?thesis using nn Cons.prems(3) by simp
  next
    case False
    then have "0 < sum_list xs" using Cons by simp
    moreover have "0 \<le> x" using Cons.prems(1) by simp
    ultimately show ?thesis by simp
  qed
qed

lemma sum_list_nat_member: "(a::nat) \<in> set xs \<Longrightarrow> (f a :: nat) \<le> sum_list (map f xs)"
  by (induction xs) auto

lemma kappa_identical:
  assumes "a \<in> set ys" "b \<in> set ys" "a \<noteq> b"
  shows "cohen_kappa_score ys ys = Fin 1"
proof -
  define L where "L = unique_labels ys ys"
  define sum0 where "sum0 = (\<lambda>j. sum_list (map (\<lambda>i. confusion ys ys i j) L))"
  define sum1 where "sum1 = (\<lambda>i. sum_list (map (\<lambda>j. confusion ys ys i j) L))"
  define n where "n = sum_list (map sum0 L)"
  define oc where "oc = sum_list (map (\<lambda>i. sum_list (map (\<lambda>j. if i = j then 0 else real (confusion ys ys i j)) L)) L)"
  define oe where "oe = sum_list (map (\<lambda>i. sum_list (map (\<lambda>j. if i = j then 0 else real (sum0 i) * real (sum1 j) / real n) L)) L)"
  have k: "cohen_kappa_score ys ys = one_minus (fdiv oc oe)"
    unfolding cohen_kappa_score_def Let_def oc_def oe_def n_def sum0_def sum1_def L_def ..
  have L: "set L = set ys" by (simp add: L_def unique_labels_def)
  have "(if i = j then 0 else real (confusion ys ys i j)) = 0" for i j
    by (simp add: confusion_same_off)
  then have oc: "oc = 0" by (simp add: oc_def)
  have s0: "0 < sum0 a"
  proof -
    have "confusion ys ys a a \<le> sum0 a"
      unfolding sum0_def using sum_list_nat_member[of a L "\<lambda>i. confusion ys ys i a"] assms(1) L by simp
    then show ?thesis using confusion_same_diag[OF assms(1)] by linarith
  qed
  have s1: "0 < sum1 b"
  proof -
    have "confusion ys ys b b \<le> sum1 b"
      unfolding sum1_def using sum_list_nat_member[of b L "\<lambda>j. confusion ys ys b j"] assms(2) L by simp
    then show ?thesis using confusion_same_diag[OF assms(2)] by linarith
  qed
  have n: "0 < n"
  proof -
    have "sum0 a \<le> n" unfolding n_def using sum_list_nat_member[of a L sum0] assms(1) L by simp
    then show ?thesis using s0 by linarith
  qed
  define inner where "inner = (\<lambda>i. sum_list (map (\<lambda>j. if i = j then 0 else real (sum0 i) * real (sum1 j) / real n) L))"
  have inner_nn: "0 \<le> inner i" for i
    unfolding inner_def by (rule sum_list_nonneg) auto
  have "0 < inner a"
    unfolding inner_def
  proof (rule sum_list_pos_member)
    show "\<forall>x\<in>set (map (\<lambda>j. if a = j then 0 else real (sum0 a) * real (sum1 j) / real n) L). 0 \<le> x"
      by auto
    show "real (sum0 a) * real (sum1 b) / real n
            \<in> set (map (\<lambda>j. if a = j then 0 else real (sum0 a) * real (sum1 j) / real n) L)"
      using assms L by force
    show "0 < real (sum0 a) * real (sum1 b) / real n" using s0 s1 n by simp
  qed
  moreover have "inner a \<in> set (map inner L)" using assms(1) L by simp
  moreover have "\<forall>x\<in>set (map inner L). 0 \<le> x" using inner_nn by auto
  ultimately have "0 < sum_list (map inner L)" by (metis sum_list_pos_member)
  then have oe: "0 < oe" by (simp add: oe_def inner_def)
  show ?thesis unfolding k oc using oe by (simp add: fdiv_def)
qed

lemma kappa_record_identical:
  assumes "0 \<in> set ys" "1 \<in> set ys"
  shows "kappa_record ys ys = Inr (Fin 1)"
proof -
  have "one_class ys = Inr False"
    by (rule one_class_mixed[OF assms]) simp
  moreover have "cohen_kappa_score ys ys = Fin 1"
    by (rule kappa_identical[OF assms]) simp
  ultimately show ?thesis by (simp add: kappa_record_def finite_or_nan_def)
qed









lemma one_class_errors: "one_class ys = Inl e \<Longrightarrow> e = ZeroSizeReduction"
  by (cases ys) (simp_all add: one_class_def amax_def amin_def)

lemma kappa_record_errors:
  assumes "kappa_record a b = Inl e"
  shows "e = ZeroSizeReduction"
proof (cases "one_class a")
  case (Inl x)
  then show ?thesis using assms one_class_errors[of a x] by (simp add: kappa_record_def)
next
  case (Inr sa)
  show ?thesis
  proof (cases sa)
    case False
    then show ?thesis using assms Inr by (simp add: kappa_record_def)
  next
    case True
    show ?thesis
    proof (cases "one_class b")
      case (Inl x)
      then show ?thesis using assms Inr True one_class_errors[of b x] by (simp add: kappa_record_def)
    next
      case ib: (Inr sb)
      then show ?thesis using assms Inr True by (cases sb) (simp_all add: kappa_record_def)
    qed
  qed
qed

lemma score_hull_errors:
  assumes "score_hull arr viirs_bin t = Inl e"
  shows "e = ZeroSizeReduction"
proof -
  let ?M = "map (map (\<lambda>c. if burned_by t c then 1 else (0::nat))) arr"
  have "kappa_record (select ?M (map (map valid) arr)) (select viirs_bin (map (map valid) arr)) = Inl e"
    using assms
    by (simp add: score_hull_def simulated_mask_general Let_def split: sum.splits)
  then show ?thesis by (rule kappa_record_errors)
qed

lemma score_hulls_errors: "score_hulls arr rz t0 hs = Inl e \<Longrightarrow> e = ZeroSizeReduction"
proof (induction hs)
  case Nil
  then show ?case by simp
next
  case (Cons p hs)
  obtain t h where p: "p = (t, h)" by (cases p)
  show ?case
  proof (cases "score_hull arr (rz h) (real_of_int (naive_seconds t - t0))")
    case (Inl x)
    then have "x = e" using Cons.prems unfolding p by (simp del: of_int_diff)
    then show ?thesis using score_hull_errors[OF Inl] by simp
  next
    case (Inr rec)
    then have "score_hulls arr rz t0 hs = Inl e"
      using Cons.prems unfolding p by (simp del: of_int_diff split: prod.splits sum.splits)
    then show ?thesis by (rule Cons.IH)
  qed
qed




text \<open>
  Claim C2. In the record of a hull, when the simulated and the observed label vectors
  over the valid cells each hold a single class, the recorded kappa is NaN; when the two
  vectors are identical and hold both classes, the recorded kappa is 1.
\<close>

theorem kappa_single_class_or_identical:
  assumes "simulated_mask arr t = Inr (burnt, st)"
  shows "(single_class (select burnt (valid_cells arr))
            \<and> single_class (select viirs_bin (valid_cells arr))
          \<longrightarrow> score_hull arr viirs_bin t = Inr (NaN, st, t))
       \<and> (select viirs_bin (valid_cells arr) = select burnt (valid_cells arr)
            \<and> 0 \<in> set (select burnt (valid_cells arr))
            \<and> 1 \<in> set (select burnt (valid_cells arr))
          \<longrightarrow> score_hull arr viirs_bin t = Inr (Fin 1, st, t))"
  using assms
  by (simp add: score_hull_def valid_cells_def Let_def kappa_record_single kappa_record_identical)

theorem kappa_single_class_or_identical_witness:
  "simulated_mask scenario_grid 3 = Inr (scenario_mask, Fin 3)
   \<and> select scenario_mask (valid_cells scenario_grid) = [1, 1, 1, 0]
   \<and> score_hull scenario_grid scenario_mask 3 = Inr (Fin 1, Fin 3, 3)"
proof -
  have m: "simulated_mask scenario_grid 3 = Inr (scenario_mask, Fin 3)" by code_simp
  have y: "select scenario_mask (valid_cells scenario_grid) = [1, 1, 1, 0]" by code_simp
  have "score_hull scenario_grid scenario_mask 3 = Inr (Fin 1, Fin 3, 3)"
    using kappa_single_class_or_identical [OF m, of scenario_mask] y by simp
  then show ?thesis using m y by simp
qed

text \<open>
  Claim C7 (amended). Once the start time has been parsed and the reference raster
  opened, the scorer raises the grid-mismatch error exactly when the shape of the
  simulated grid differs from the shape of the reference raster. The error carries both
  shapes, it does not depend on the hulls (it is raised before any of them is visited)
  and nothing else is returned.
\<close>

theorem grid_mismatch_error:
  assumes "parse_start_to_utc P db st = Inr t0"
  shows "is_grid_mismatch (calc_cohen_kappa_for_case P db rz arr hulls st (Some ref_shape))
           = (shape arr \<noteq> ref_shape)
       \<and> (shape arr \<noteq> ref_shape \<longrightarrow>
            calc_cohen_kappa_for_case P db rz arr hulls st (Some ref_shape)
              = Inl (GridMismatch (shape arr) ref_shape))"
proof (cases "shape arr = ref_shape")
  case False
  then show ?thesis using assms
    by (simp add: calc_cohen_kappa_for_case_def is_grid_mismatch_def)
next
  case True
  let ?r = "score_hulls arr rz t0 (sort_key (\<lambda>p. naive_seconds (fst p)) hulls)"
  have c: "calc_cohen_kappa_for_case P db rz arr hulls st (Some ref_shape) = ?r"
    using True assms by (simp add: calc_cohen_kappa_for_case_def)
  have "\<not> is_grid_mismatch ?r"
  proof (cases ?r)
    case (Inl e)
    then have "e = ZeroSizeReduction" by (rule score_hulls_errors)
    then show ?thesis using Inl by (simp add: is_grid_mismatch_def)
  next
    case (Inr x)
    then show ?thesis by (simp add: is_grid_mismatch_def)
  qed
  then show ?thesis using True c by simp
qed

theorem grid_mismatch_error_witness:
  "parse_start_to_utc iso_to_datetime zoneinfo (StartStr ''2017-10-08, 21:45 PST'') = Inr 1507524300
   \<and> shape scenario_grid \<noteq> (4, 5)
   \<and> calc_cohen_kappa_for_case iso_to_datetime zoneinfo id scenario_grid early_hull
        (StartStr ''2017-10-08, 21:45 PST'') (Some (4, 5))
       = Inl (GridMismatch (4, 4) (4, 5))"
proof -
  have p: "parse_start_to_utc iso_to_datetime zoneinfo (StartStr ''2017-10-08, 21:45 PST'') = Inr 1507524300"
    by code_simp
  have sh: "shape scenario_grid = (4, 4)" by code_simp
  then have ne: "shape scenario_grid \<noteq> (4, 5)" by simp
  have "calc_cohen_kappa_for_case iso_to_datetime zoneinfo id scenario_grid early_hull
        (StartStr ''2017-10-08, 21:45 PST'') (Some (4, 5))
       = Inl (GridMismatch (shape scenario_grid) (4, 5))"
    using grid_mismatch_error [OF p, of id scenario_grid early_hull "(4, 5)"] ne by blast
  then show ?thesis using p ne sh by simp
qed

theorem grid_mismatch_only_counterexample:
  "shape all_invalid_grid = (1, 2)
   \<and> calc_cohen_kappa_for_case iso_to_datetime zoneinfo id all_invalid_grid
        [(Naive 2017 10 9 9 30 0, [[1, 1]])] (StartStr ''2017-10-08, 21:45 PST'') (Some (1, 2))
       = Inl ZeroSizeReduction
   \<and> shape scenario_grid = (4, 4)
   \<and> calc_cohen_kappa_for_case iso_to_datetime zoneinfo id scenario_grid early_hull
        (StartStr ''xyz'') (Some (4, 4))
       = Inl DateParseError"
  by code_simp
















end
